theory Spec2Isabelle
  imports Main "HOL-Library.Sublist" "HOL-Library.AList"
begin

section \<open>Python values and exceptions\<close>

text \<open>
  Python integers are unbounded: they are \<^typ>\<open>int\<close>. A Python \<^verbatim>\<open>str\<close> is modelled as a
  \<^typ>\<open>string\<close> whose characters stand for the code points 0 to 255; text with code points
  beyond 255 is outside the model. Only \<^verbatim>\<open>str.upper\<close> can leave that range, so its result
  is a list of code points.

  Every exception the modelled code can raise is a value of \<open>py_error\<close>, carrying the
  message CPython gives it, written without quotation marks and apostrophes and without the
  offending byte or number. A function that can raise returns \<open>py_error + 'a\<close>.
\<close>

datatype py_error =
    TypeError string
  | AttributeError string
  | ValueError string
  | KeyError string
  | OverflowError string
  | UnicodeDecodeError string

fun message :: "py_error \<Rightarrow> string" where
  "message (TypeError m) = m"
| "message (AttributeError m) = m"
| "message (ValueError m) = m"
| "message (KeyError m) = m"
| "message (OverflowError m) = m"
| "message (UnicodeDecodeError m) = m"

text \<open>A cache slot holds an \<^verbatim>\<open>int\<close> or \<^verbatim>\<open>None\<close> (the default factory's value).\<close>

datatype pyval = PyNone | PyInt int

section \<open>register.py: Type, Scaling and render\<close>

datatype Type = BOOL | WORD | DWORD_HIGH | DWORD_LOW | SWORD | ASCII

datatype Scaling = UNIT | DECI | CENTI

text \<open>
  What \<^verbatim>\<open>render\<close> returns. \<^verbatim>\<open>Scaling.UNIT.value\<close> is the integer 1, so a product with it
  is an integer. \<^verbatim>\<open>Scaling.DECI.value\<close> and \<^verbatim>\<open>Scaling.CENTI.value\<close> are the floats 0.1 and
  0.01: \<open>RFloat v s\<close> stands for the float product \<^verbatim>\<open>v * s.value\<close>, kept as its two operands
  (the rounding of the product is not modelled).
\<close>

datatype rendered = RBool bool | RInt int | RFloat int Scaling | RStr string

definition times_scaling :: "int \<Rightarrow> Scaling \<Rightarrow> rendered" where
  "times_scaling v s = (case s of UNIT \<Rightarrow> RInt (v * 1) | DECI \<Rightarrow> RFloat v DECI | CENTI \<Rightarrow> RFloat v CENTI)"

text \<open>\<^verbatim>\<open>value.to_bytes(2, byteorder='big')\<close>: the two bytes, most significant first.\<close>

definition to_bytes2 :: "int \<Rightarrow> py_error + nat list" where
  "to_bytes2 v =
     (if v < 0 then Inl (OverflowError ''cannot convert negative int to unsigned'')
      else if 65536 \<le> v then Inl (OverflowError ''int too big to convert'')
      else Inr [nat (v div 256), nat (v mod 256)])"

text \<open>\<^verbatim>\<open>bytes.decode(encoding='ascii')\<close>: strict, a byte above 127 is an error.\<close>

definition decode_ascii :: "nat list \<Rightarrow> py_error + string" where
  "decode_ascii bs =
     (if list_all (\<lambda>b. b < 128) bs then Inr (map char_of bs)
      else Inl (UnicodeDecodeError ''ascii codec cannot decode byte: ordinal not in range(128)''))"

text \<open>\<^verbatim>\<open>bytes.decode(encoding='latin1')\<close>: every byte is the code point of the same number.\<close>

definition decode_latin1 :: "nat list \<Rightarrow> string" where
  "decode_latin1 bs = map char_of bs"

text \<open>\<^verbatim>\<open>Type.render(self, value, scaling)\<close>, with \<open>scaling\<close> the member whose value is passed.\<close>

definition render :: "Type \<Rightarrow> int \<Rightarrow> Scaling \<Rightarrow> py_error + rendered" where
  "render t v scaling =
     (if t = DWORD_HIGH then Inr (times_scaling (push_bit 16 v) scaling)
      else if t = SWORD then
        Inr (times_scaling (if and v (push_bit (16 - 1) 1) \<noteq> 0 then v - push_bit 16 1 else v) scaling)
      else if t = ASCII then
        (case to_bytes2 v of
           Inl e \<Rightarrow> Inl e
         | Inr bs \<Rightarrow> (case decode_ascii bs of Inl e \<Rightarrow> Inl e | Inr s \<Rightarrow> Inr (RStr s)))
      else if t = BOOL then Inr (RBool (and v 1 \<noteq> 0))
      else Inr (times_scaling v scaling))"

section \<open>register_cache.py: the cache\<close>

text \<open>
  Modelled from the spec: the classes \<^verbatim>\<open>Register\<close>, \<^verbatim>\<open>HR\<close> and \<^verbatim>\<open>IR\<close> that register_cache.py
  imports are not part of the sources at hand. The spec gives a register identity as a bank
  (Holding, abbreviated \<^verbatim>\<open>HR\<close>, or Input, abbreviated \<^verbatim>\<open>IR\<close>) and an offset, equal iff both
  agree, and lets the identity carry any offset; the constructor is applied in the source to
  the result of \<^verbatim>\<open>int(idx)\<close>, so the offset is a Python integer.
\<close>

datatype Register = HR int | IR int

text \<open>
  \<^verbatim>\<open>RegisterCache\<close> is a \<^verbatim>\<open>defaultdict\<close>: a dictionary in insertion order, here an association
  list with distinct keys, whose default factory is \<^verbatim>\<open>lambda: None\<close>.
\<close>

type_synonym RegisterCache = "(Register \<times> pyval) list"

definition RegisterCache_init :: "(Register \<times> pyval) list option \<Rightarrow> RegisterCache" where
  "RegisterCache_init registers = (case registers of None \<Rightarrow> [] | Some d \<Rightarrow> d)"

text \<open>
  \<^verbatim>\<open>self[r]\<close>: a stored key gives its value; a missing key calls the default factory, stores
  its result under the key and returns it. The cache after the lookup is returned too.
\<close>

definition getitem :: "RegisterCache \<Rightarrow> Register \<Rightarrow> pyval \<times> RegisterCache" where
  "getitem c r =
     (case map_of c r of
        Some v \<Rightarrow> (v, c)
      | None \<Rightarrow> (PyNone, AList.update r PyNone c))"

text \<open>\<^verbatim>\<open>self.get(r, dflt)\<close>: never calls the default factory and stores nothing.\<close>

definition get :: "RegisterCache \<Rightarrow> Register \<Rightarrow> pyval \<Rightarrow> pyval" where
  "get c r dflt = (case map_of c r of Some v \<Rightarrow> v | None \<Rightarrow> dflt)"

subsection \<open>Text helpers of Python\<close>

text \<open>\<^verbatim>\<open>str.isalnum\<close> on one character, for the code points 0 to 255.\<close>

definition isalnum :: "char \<Rightarrow> bool" where
  "isalnum ch =
     (let n = (of_char ch :: nat) in
        (48 \<le> n \<and> n \<le> 57) \<or> (65 \<le> n \<and> n \<le> 90) \<or> (97 \<le> n \<and> n \<le> 122) \<or>
        n = 170 \<or> n = 178 \<or> n = 179 \<or> n = 181 \<or> n = 185 \<or> n = 186 \<or>
        (188 \<le> n \<and> n \<le> 190) \<or> (192 \<le> n \<and> n \<le> 214) \<or> (216 \<le> n \<and> n \<le> 246) \<or> 248 \<le> n)"

text \<open>
  \<^verbatim>\<open>str.upper\<close> on one character, as code points: the sharp s becomes two letters, the micro
  sign and the y with diaeresis leave the range 0 to 255.
\<close>

definition upper_char :: "char \<Rightarrow> nat list" where
  "upper_char ch =
     (let n = (of_char ch :: nat) in
        if 97 \<le> n \<and> n \<le> 122 then [n - 32]
        else if n = 181 then [924]
        else if n = 223 then [83, 83]
        else if (224 \<le> n \<and> n \<le> 246) \<or> (248 \<le> n \<and> n \<le> 254) then [n - 32]
        else if n = 255 then [376]
        else [n])"

definition upper :: "string \<Rightarrow> nat list" where
  "upper s = concat (map upper_char s)"

text \<open>The code points of a literal.\<close>

definition codepoints :: "string \<Rightarrow> nat list" where
  "codepoints s = map of_char s"

text \<open>The digits of a natural number in a base up to 16, lower case, as \<^verbatim>\<open>format\<close> writes them.\<close>

definition digit_char :: "nat \<Rightarrow> char" where
  "digit_char d = (if d < 10 then char_of (48 + d) else char_of (87 + d))"

fun digits :: "nat \<Rightarrow> nat \<Rightarrow> string" where
  "digits b n = (if b < 2 \<or> n < b then [digit_char n] else digits b (n div b) @ [digit_char (n mod b)])"

declare digits.simps [simp del]

text \<open>
  \<^verbatim>\<open>f"{v:04x}"\<close>: lower-case hexadecimal, zero-padded after the sign to four characters in all;
  \<^verbatim>\<open>None\<close> does not accept the format.
\<close>

definition format_04x :: "pyval \<Rightarrow> py_error + string" where
  "format_04x v =
     (case v of
        PyNone \<Rightarrow> Inl (TypeError ''unsupported format string passed to NoneType.__format__'')
      | PyInt n \<Rightarrow>
          (if 0 \<le> n then
             (let ds = digits 16 (nat n) in Inr (replicate (4 - length ds) CHR ''0'' @ ds))
           else
             (let ds = digits 16 (nat (- n)) in Inr (CHR ''-'' # replicate (3 - length ds) CHR ''0'' @ ds))))"

subsection \<open>Composition helpers\<close>

text \<open>
  Each helper returns its result, or the exception it raises, together with the cache as the
  lookups left it.
\<close>

text \<open>The list comprehension of \<^verbatim>\<open>to_string\<close>, one register after the other.\<close>

fun to_string_parts :: "RegisterCache \<Rightarrow> Register list \<Rightarrow> (py_error + string list) \<times> RegisterCache" where
  "to_string_parts c [] = (Inr [], c)"
| "to_string_parts c (r # rs) =
     (case getitem c r of
        (PyNone, c1) \<Rightarrow> (Inl (AttributeError ''NoneType object has no attribute to_bytes''), c1)
      | (PyInt n, c1) \<Rightarrow>
          (case to_bytes2 n of
             Inl e \<Rightarrow> (Inl e, c1)
           | Inr bs \<Rightarrow>
               (case to_string_parts c1 rs of
                  (Inl e, c2) \<Rightarrow> (Inl e, c2)
                | (Inr ps, c2) \<Rightarrow> (Inr (decode_latin1 bs # ps), c2))))"

definition to_string :: "RegisterCache \<Rightarrow> Register list \<Rightarrow> (py_error + nat list) \<times> RegisterCache" where
  "to_string c registers =
     (case to_string_parts c registers of
        (Inl e, c1) \<Rightarrow> (Inl e, c1)
      | (Inr ps, c1) \<Rightarrow> (Inr (upper (filter isalnum (concat ps))), c1))"

text \<open>The list comprehension and the loop of \<^verbatim>\<open>to_hex_string\<close>: both format every register.\<close>

fun hex_values :: "RegisterCache \<Rightarrow> Register list \<Rightarrow> (py_error + string list) \<times> RegisterCache" where
  "hex_values c [] = (Inr [], c)"
| "hex_values c (r # rs) =
     (case getitem c r of
        (v, c1) \<Rightarrow>
          (case format_04x v of
             Inl e \<Rightarrow> (Inl e, c1)
           | Inr s \<Rightarrow>
               (case hex_values c1 rs of
                  (Inl e, c2) \<Rightarrow> (Inl e, c2)
                | (Inr ss, c2) \<Rightarrow> (Inr (s # ss), c2))))"

fun hex_loop :: "RegisterCache \<Rightarrow> string \<Rightarrow> Register list \<Rightarrow> (py_error + string) \<times> RegisterCache" where
  "hex_loop c ret [] = (Inr ret, c)"
| "hex_loop c ret (r # rs) =
     (case getitem c r of
        (v, c1) \<Rightarrow>
          (case format_04x v of
             Inl e \<Rightarrow> (Inl e, c1)
           | Inr s \<Rightarrow> hex_loop c1 (ret @ s) rs))"

text \<open>\<^verbatim>\<open>all(values)\<close> on a list of strings: a string is true iff it is not empty.\<close>

definition all_truthy :: "string list \<Rightarrow> bool" where
  "all_truthy values = list_all (\<lambda>s. s \<noteq> []) values"

definition to_hex_string :: "RegisterCache \<Rightarrow> Register list \<Rightarrow> (py_error + nat list) \<times> RegisterCache" where
  "to_hex_string c registers =
     (case hex_values c registers of
        (Inl e, c1) \<Rightarrow> (Inl e, c1)
      | (Inr values, c1) \<Rightarrow>
          (if all_truthy values then
             (case hex_loop c1 [] registers of
                (Inl e, c2) \<Rightarrow> (Inl e, c2)
              | (Inr ret, c2) \<Rightarrow> (Inr (upper (filter isalnum ret)), c2))
           else (Inr (codepoints []), c1)))"

text \<open>\<^verbatim>\<open>to_duint8\<close>: the generator looks each register up twice, for the high and the low byte.\<close>

fun to_duint8 :: "RegisterCache \<Rightarrow> Register list \<Rightarrow> (py_error + int list) \<times> RegisterCache" where
  "to_duint8 c [] = (Inr [], c)"
| "to_duint8 c (r # rs) =
     (case getitem c r of
        (PyNone, c1) \<Rightarrow> (Inl (TypeError ''unsupported operand type(s) for >>: NoneType and int''), c1)
      | (PyInt a, c1) \<Rightarrow>
          (case getitem c1 r of
             (PyNone, c2) \<Rightarrow> (Inl (TypeError ''unsupported operand type(s) for &: NoneType and int''), c2)
           | (PyInt b, c2) \<Rightarrow>
               (case to_duint8 c2 rs of
                  (Inl e, c3) \<Rightarrow> (Inl e, c3)
                | (Inr bs, c3) \<Rightarrow> (Inr (drop_bit 8 a # and b 255 # bs), c3))))"

text \<open>
  \<^verbatim>\<open>to_uint32\<close>: the shift is applied to the high word before the low register is looked up.
\<close>

definition to_uint32 :: "RegisterCache \<Rightarrow> Register \<Rightarrow> Register \<Rightarrow> (py_error + int) \<times> RegisterCache" where
  "to_uint32 c high_register low_register =
     (case getitem c high_register of
        (PyNone, c1) \<Rightarrow> (Inl (TypeError ''unsupported operand type(s) for <<: NoneType and int''), c1)
      | (PyInt hi, c1) \<Rightarrow>
          (case getitem c1 low_register of
             (PyNone, c2) \<Rightarrow> (Inl (TypeError ''unsupported operand type(s) for +: int and NoneType''), c2)
           | (PyInt lo, c2) \<Rightarrow> (Inr (push_bit 16 hi + lo), c2)))"

subsection \<open>to\_datetime\<close>

text \<open>
  \<^verbatim>\<open>datetime.datetime(year, month, day, hour, minute, second)\<close> of the standard library: every
  argument must be an integer, and the fields are checked in this order.
\<close>

record datetime =
  year :: int
  month :: int
  day :: int
  hour :: int
  minute :: int
  second :: int

definition is_leap :: "int \<Rightarrow> bool" where
  "is_leap y = (y mod 4 = 0 \<and> (y mod 100 \<noteq> 0 \<or> y mod 400 = 0))"

definition days_in_month :: "int \<Rightarrow> int \<Rightarrow> int" where
  "days_in_month y m =
     (if m = 2 then (if is_leap y then 29 else 28)
      else if m = 4 \<or> m = 6 \<or> m = 9 \<or> m = 11 then 30 else 31)"

definition datetime_new :: "pyval \<Rightarrow> pyval \<Rightarrow> pyval \<Rightarrow> pyval \<Rightarrow> pyval \<Rightarrow> pyval \<Rightarrow> py_error + datetime" where
  "datetime_new vy vm vd vh vmin vs =
     (case (vy, vm, vd, vh, vmin, vs) of
        (PyInt y, PyInt m, PyInt d, PyInt h, PyInt mi, PyInt s) \<Rightarrow>
          (if y < 1 \<or> 9999 < y then Inl (ValueError ''year is out of range'')
           else if m < 1 \<or> 12 < m then Inl (ValueError ''month must be in 1..12'')
           else if d < 1 \<or> days_in_month y m < d then Inl (ValueError ''day is out of range for month'')
           else if h < 0 \<or> 23 < h then Inl (ValueError ''hour must be in 0..23'')
           else if mi < 0 \<or> 59 < mi then Inl (ValueError ''minute must be in 0..59'')
           else if s < 0 \<or> 59 < s then Inl (ValueError ''second must be in 0..59'')
           else Inr \<lparr>year = y, month = m, day = d, hour = h, minute = mi, second = s\<rparr>)
      | _ \<Rightarrow> Inl (TypeError ''NoneType object cannot be interpreted as an integer''))"

text \<open>\<^verbatim>\<open>self[y] + 2000\<close>.\<close>

definition add_2000 :: "pyval \<Rightarrow> py_error + pyval" where
  "add_2000 v =
     (case v of
        PyNone \<Rightarrow> Inl (TypeError ''unsupported operand type(s) for +: NoneType and int'')
      | PyInt n \<Rightarrow> Inr (PyInt (n + 2000)))"

text \<open>
  The body of the \<^verbatim>\<open>except\<close> clause of \<^verbatim>\<open>to_datetime\<close>: after the log line (not modelled) it
  evaluates \<^verbatim>\<open>datetime.datetime(2000, 0,0,0,0,0)\<close>; what that call raises leaves
  \<^verbatim>\<open>to_datetime\<close>, being raised inside the handler.
\<close>

definition zero_date :: "py_error + datetime" where
  "zero_date = datetime_new (PyInt 2000) (PyInt 0) (PyInt 0) (PyInt 0) (PyInt 0) (PyInt 0)"

text \<open>
  \<^verbatim>\<open>to_datetime\<close>: the arguments of the first call are evaluated from left to right, so a
  year that is \<^verbatim>\<open>None\<close> ends the \<^verbatim>\<open>try\<close> body before the other registers are looked up. Any
  exception of the body is caught by the bare \<^verbatim>\<open>except\<close>.
\<close>

definition to_datetime ::
  "RegisterCache \<Rightarrow> Register \<Rightarrow> Register \<Rightarrow> Register \<Rightarrow> Register \<Rightarrow> Register \<Rightarrow> Register
     \<Rightarrow> (py_error + datetime) \<times> RegisterCache" where
  "to_datetime c y m d h mi s =
     (case getitem c y of
        (vy, c1) \<Rightarrow>
          (case add_2000 vy of
             Inl e \<Rightarrow> (zero_date, c1)
           | Inr yy \<Rightarrow>
               (let vm = get c1 m (PyInt 1); vd = get c1 d (PyInt 1) in
                (case getitem c1 h of
                   (vh, c2) \<Rightarrow>
                     (case getitem c2 mi of
                        (vmin, c3) \<Rightarrow>
                          (case getitem c3 s of
                             (vs, c4) \<Rightarrow>
                               (case datetime_new yy vm vd vh vmin vs of
                                  Inl e \<Rightarrow> (zero_date, c4)
                                | Inr dt \<Rightarrow> (Inr dt, c4))))))))"

subsection \<open>Serialization\<close>

text \<open>\<^verbatim>\<open>str(n)\<close> of an integer: decimal, with a minus sign when negative.\<close>

definition str_int :: "int \<Rightarrow> string" where
  "str_int n = (if n < 0 then CHR ''-'' # digits 10 (nat (- n)) else digits 10 (nat n))"

text \<open>
  Modelled from the spec: the canonical textual form of a register identity, the bank
  abbreviation followed by the offset in parentheses, as in \<^verbatim>\<open>HR(13)\<close>.
\<close>

fun canonical_text :: "Register \<Rightarrow> string" where
  "canonical_text (HR n) = ''HR('' @ str_int n @ '')''"
| "canonical_text (IR n) = ''IR('' @ str_int n @ '')''"

text \<open>
  \<^verbatim>\<open>json.dumps\<close> and \<^verbatim>\<open>json.loads\<close> are library code. The JSON text that passes between them
  is represented by the object it denotes: its members, key text and value, in the order
  written. \<^verbatim>\<open>json.loads\<close> collects the members of an object into a \<^verbatim>\<open>dict\<close> (a repeated key
  keeps its first place and its last value) and hands that to the object hook. Objects
  whose values are integers or \<^verbatim>\<open>null\<close> are modelled.

  The text under which \<^verbatim>\<open>json.dumps\<close> writes a register is fixed by the class \<^verbatim>\<open>Register\<close>,
  which is missing: it is the parameter \<open>key\<close> of \<open>json\<close>.
\<close>

type_synonym json_object = "(string \<times> pyval) list"

definition json :: "(Register \<Rightarrow> string) \<Rightarrow> RegisterCache \<Rightarrow> json_object" where
  "json key c = map (\<lambda>(r, v). (key r, v)) c"

definition py_dict :: "('k \<times> 'v) list \<Rightarrow> ('k \<times> 'v) list" where
  "py_dict members = foldl (\<lambda>d (k, v). AList.update k v d) [] members"

text \<open>\<^verbatim>\<open>k.find(ch)\<close>: the index of the first occurrence, or -1.\<close>

definition find_char :: "string \<Rightarrow> char \<Rightarrow> int" where
  "find_char k ch = (if ch \<in> set k then int (length (takeWhile (\<lambda>x. x \<noteq> ch) k)) else - 1)"

text \<open>\<^verbatim>\<open>k.split(ch, maxsplit=1)\<close> when \<open>ch\<close> occurs in \<open>k\<close>: the text before and after its first occurrence.\<close>

definition split1 :: "string \<Rightarrow> char \<Rightarrow> string \<times> string" where
  "split1 k ch = (takeWhile (\<lambda>x. x \<noteq> ch) k, drop 1 (dropWhile (\<lambda>x. x \<noteq> ch) k))"

text \<open>
  \<^verbatim>\<open>int(idx)\<close> on a string of code points 0 to 255: white space is stripped at both ends, a
  sign may follow, then decimal digits, where a single underscore may stand between two
  digits. Anything else is a \<^verbatim>\<open>ValueError\<close>. (The interpreter's limit on the number of
  digits is not modelled.)
\<close>

definition is_space :: "char \<Rightarrow> bool" where
  "is_space ch = (let n = (of_char ch :: nat) in (9 \<le> n \<and> n \<le> 13) \<or> n = 32 \<or> n = 133 \<or> n = 160)"

definition strip :: "string \<Rightarrow> string" where
  "strip s = rev (dropWhile is_space (rev (dropWhile is_space s)))"

definition is_digit :: "char \<Rightarrow> bool" where
  "is_digit ch = (let n = (of_char ch :: nat) in 48 \<le> n \<and> n \<le> 57)"

definition digit_val :: "char \<Rightarrow> nat" where
  "digit_val ch = of_char ch - 48"

fun int_digits :: "string \<Rightarrow> nat list option" where
  "int_digits [] = None"
| "int_digits [ch] = (if is_digit ch then Some [digit_val ch] else None)"
| "int_digits (ch # d # cs) =
     (if is_digit ch then
        (if d = CHR ''_'' then map_option (Cons (digit_val ch)) (int_digits cs)
         else map_option (Cons (digit_val ch)) (int_digits (d # cs)))
      else None)"

definition digits_value :: "nat list \<Rightarrow> nat" where
  "digits_value ds = foldl (\<lambda>a d. 10 * a + d) 0 ds"

definition py_int :: "string \<Rightarrow> py_error + int" where
  "py_int s =
     (let t = strip s;
          (neg, body) = (case t of
                           ch # cs \<Rightarrow> if ch = CHR ''-'' then (True, cs) else if ch = CHR ''+'' then (False, cs) else (False, t)
                         | [] \<Rightarrow> (False, t))
      in case int_digits body of
           None \<Rightarrow> Inl (ValueError (''invalid literal for int() with base 10: '' @ s))
         | Some ds \<Rightarrow> Inr (if neg then - int (digits_value ds) else int (digits_value ds)))"

text \<open>The dictionary \<^verbatim>\<open>lookup\<close> of \<^verbatim>\<open>register_object_hook\<close>.\<close>

definition lookup :: "(string \<times> (int \<Rightarrow> Register)) list" where
  "lookup = [(''HR'', HR), (''IR'', IR)]"

text \<open>The branches that take a key apart; the \<^verbatim>\<open>raise\<close> of the last one is outside the \<^verbatim>\<open>try\<close>.\<close>

definition split_key :: "string \<Rightarrow> py_error + (string \<times> string)" where
  "split_key k =
     (if find_char k CHR ''('' > 0 then
        (case split1 k CHR ''('' of (reg, idx) \<Rightarrow> Inr (reg, butlast idx))
      else if find_char k CHR '':'' > 0 then Inr (split1 k CHR '':'')
      else Inl (ValueError (k @ '' is not a valid Register type'')))"

text \<open>
  The key expression \<^verbatim>\<open>lookup[reg](int(idx))\<close>: the subscript is evaluated first and raises
  \<^verbatim>\<open>KeyError\<close> for an unknown abbreviation, then \<^verbatim>\<open>int\<close> is called.
\<close>

definition make_register :: "string \<Rightarrow> string \<Rightarrow> py_error + Register" where
  "make_register reg idx =
     (case map_of lookup reg of
        None \<Rightarrow> Inl (KeyError reg)
      | Some bank \<Rightarrow> (case py_int idx of Inl e \<Rightarrow> Inl e | Inr n \<Rightarrow> Inr (bank n)))"

text \<open>
  The loop of \<^verbatim>\<open>register_object_hook\<close> over the items, with \<open>ret\<close> the dictionary built so
  far: a \<^verbatim>\<open>ValueError\<close> inside the \<^verbatim>\<open>try\<close> skips the item, any other exception leaves the loop.
\<close>

fun hook_loop :: "RegisterCache \<Rightarrow> json_object \<Rightarrow> py_error + RegisterCache" where
  "hook_loop ret [] = Inr ret"
| "hook_loop ret ((k, v) # kvs) =
     (case split_key k of
        Inl e \<Rightarrow> Inl e
      | Inr (reg, idx) \<Rightarrow>
          (case make_register reg idx of
             Inr r \<Rightarrow> hook_loop (AList.update r v ret) kvs
           | Inl (ValueError m) \<Rightarrow> hook_loop ret kvs
           | Inl e \<Rightarrow> Inl e))"

definition register_object_hook :: "json_object \<Rightarrow> py_error + RegisterCache" where
  "register_object_hook object_dict = hook_loop [] object_dict"

definition from_json :: "json_object \<Rightarrow> py_error + RegisterCache" where
  "from_json data =
     (case register_object_hook (py_dict data) of
        Inl e \<Rightarrow> Inl e
      | Inr registers \<Rightarrow> Inr (RegisterCache_init (Some registers)))"

section \<open>register.py: the register definition tables\<close>

text \<open>
  A member of a \<^verbatim>\<open>RegisterBank\<close> enumeration: its name, its value (the offset), its type and
  its scaling. A table lists the members in the order of their definition.
\<close>

type_synonym RegisterBank = "(string \<times> int \<times> Type \<times> Scaling) list"

definition reg_value :: "string \<times> int \<times> Type \<times> Scaling \<Rightarrow> int" where
  "reg_value e = fst (snd e)"

definition reg_type :: "string \<times> int \<times> Type \<times> Scaling \<Rightarrow> Type" where
  "reg_type e = fst (snd (snd e))"

definition reg_scaling :: "string \<times> int \<times> Type \<times> Scaling \<Rightarrow> Scaling" where
  "reg_scaling e = snd (snd (snd e))"

definition HoldingRegister :: "RegisterBank" where
  "HoldingRegister = [
    (''DEVICE_TYPE_CODE'', 0, WORD, UNIT),
    (''INVERTER_MODULE_H'', 1, DWORD_HIGH, UNIT),
    (''INVERTER_MODULE_L'', 2, DWORD_LOW, UNIT),
    (''INPUT_TRACKER_NUM_AND_OUTPUT_PHASE_NUM'', 3, WORD, UNIT),
    (''REG004'', 4, WORD, UNIT),
    (''REG005'', 5, WORD, UNIT),
    (''REG006'', 6, WORD, UNIT),
    (''REG007'', 7, WORD, UNIT),
    (''BATTERY_SERIAL_NUMBER_5'', 8, ASCII, UNIT),
    (''BATTERY_SERIAL_NUMBER_4'', 9, ASCII, UNIT),
    (''BATTERY_SERIAL_NUMBER_3'', 10, ASCII, UNIT),
    (''BATTERY_SERIAL_NUMBER_2'', 11, ASCII, UNIT),
    (''BATTERY_SERIAL_NUMBER_1'', 12, ASCII, UNIT),
    (''INVERTER_SERIAL_NUMBER_5'', 13, ASCII, UNIT),
    (''INVERTER_SERIAL_NUMBER_4'', 14, ASCII, UNIT),
    (''INVERTER_SERIAL_NUMBER_3'', 15, ASCII, UNIT),
    (''INVERTER_SERIAL_NUMBER_2'', 16, ASCII, UNIT),
    (''INVERTER_SERIAL_NUMBER_1'', 17, ASCII, UNIT),
    (''BATTERY_FIRMWARE_VERSION'', 18, WORD, UNIT),
    (''DSP_FIRMWARE_VERSION'', 19, WORD, UNIT),
    (''WINTER_MODE'', 20, BOOL, UNIT),
    (''ARM_FIRMWARE_VERSION'', 21, WORD, UNIT),
    (''WIFI_OR_U_DISK'', 22, WORD, UNIT),
    (''SELECT_DSP_OR_ARM'', 23, WORD, UNIT),
    (''SET_VARIABLE_ADDRESS'', 24, WORD, UNIT),
    (''SET_VARIABLE_VALUE'', 25, WORD, UNIT),
    (''GRID_PORT_MAX_OUTPUT_POWER'', 26, WORD, UNIT),
    (''BATTERY_POWER_MODE'', 27, BOOL, UNIT),
    (''FRE_MODE'', 28, WORD, UNIT),
    (''SOC_FORCE_ADJUST'', 29, WORD, UNIT),
    (''COMMUNICATE_ADDRESS'', 30, WORD, UNIT),
    (''CHARGE_SLOT_2_START'', 31, WORD, UNIT),
    (''CHARGE_SLOT_2_END'', 32, WORD, UNIT),
    (''USER_CODE'', 33, WORD, UNIT),
    (''MODBUS_VERSION'', 34, WORD, CENTI),
    (''SYSTEM_TIME_YEAR'', 35, WORD, UNIT),
    (''SYSTEM_TIME_MONTH'', 36, WORD, UNIT),
    (''SYSTEM_TIME_DAY'', 37, WORD, UNIT),
    (''SYSTEM_TIME_HOUR'', 38, WORD, UNIT),
    (''SYSTEM_TIME_MINUTE'', 39, WORD, UNIT),
    (''SYSTEM_TIME_SECOND'', 40, WORD, UNIT),
    (''DRM_ENABLE'', 41, BOOL, UNIT),
    (''CT_ADJUST'', 42, WORD, UNIT),
    (''CHARGE_AND_DISCHARGE_SOC'', 43, WORD, UNIT),
    (''DISCHARGE_SLOT_2_START'', 44, WORD, UNIT),
    (''DISCHARGE_SLOT_2_END'', 45, WORD, UNIT),
    (''BMS_VERSION'', 46, WORD, UNIT),
    (''B_METER_TYPE'', 47, WORD, UNIT),
    (''B_115_METER_DIRECT'', 48, WORD, UNIT),
    (''B_418_METER_DIRECT'', 49, WORD, UNIT),
    (''ACTIVE_P_RATE'', 50, WORD, UNIT),
    (''REACTIVE_P_RATE'', 51, WORD, UNIT),
    (''POWER_FACTOR'', 52, WORD, UNIT),
    (''INVERTER_STATE'', 53, WORD, UNIT),
    (''BATTERY_TYPE'', 54, WORD, UNIT),
    (''BATTERY_NOMINAL_CAPACITY'', 55, WORD, UNIT),
    (''DISCHARGE_SLOT_1_START'', 56, WORD, UNIT),
    (''DISCHARGE_SLOT_1_END'', 57, WORD, UNIT),
    (''AUTO_JUDGE_BATTERY_TYPE_ENABLE'', 58, WORD, UNIT),
    (''DISCHARGE_ENABLE'', 59, BOOL, UNIT),
    (''INPUT_START_VOLTAGE'', 60, WORD, UNIT),
    (''START_TIME'', 61, WORD, UNIT),
    (''RESTART_DELAY_TIME'', 62, WORD, UNIT),
    (''V_AC_LOW_OUT'', 63, WORD, DECI),
    (''V_AC_HIGH_OUT'', 64, WORD, DECI),
    (''F_AC_LOW_OUT'', 65, WORD, CENTI),
    (''F_AC_HIGH_OUT'', 66, WORD, CENTI),
    (''V_AC_LOW_OUT_TIME'', 67, WORD, UNIT),
    (''V_AC_HIGH_OUT_TIME'', 68, WORD, UNIT),
    (''F_AC_LOW_OUT_TIME'', 69, WORD, UNIT),
    (''F_AC_HIGH_OUT_TIME'', 70, WORD, UNIT),
    (''V_AC_LOW_IN'', 71, WORD, DECI),
    (''V_AC_HIGH_IN'', 72, WORD, DECI),
    (''F_AC_LOW_IN'', 73, WORD, CENTI),
    (''F_AC_HIGH_IN'', 74, WORD, CENTI),
    (''V_AC_LOW_IN_TIME'', 75, WORD, UNIT),
    (''V_AC_HIGH_IN_TIME'', 76, WORD, UNIT),
    (''F_AC_LOW_TIME_IN'', 77, WORD, UNIT),
    (''F_AC_HIGH_TIME_IN'', 78, WORD, UNIT),
    (''V_AC_LOW_C'', 79, WORD, DECI),
    (''V_AC_HIGH_C'', 80, WORD, DECI),
    (''F_AC_LOW_C'', 81, WORD, CENTI),
    (''F_AC_HIGH_C'', 82, WORD, CENTI),
    (''U_10_MIN'', 83, WORD, UNIT),
    (''ISO1'', 84, WORD, UNIT),
    (''ISO2'', 85, WORD, UNIT),
    (''GFCI_I_1'', 86, WORD, UNIT),
    (''GFCI_TIME_1'', 87, WORD, UNIT),
    (''GFCI_I_2'', 88, WORD, UNIT),
    (''GFCI_TIME_2'', 89, WORD, UNIT),
    (''DCI_I_1'', 90, WORD, UNIT),
    (''DCI_TIME_1'', 91, WORD, UNIT),
    (''DCI_I_2'', 92, WORD, UNIT),
    (''DCI_TIME_2'', 93, WORD, UNIT),
    (''CHARGE_SLOT_1_START'', 94, WORD, UNIT),
    (''CHARGE_SLOT_1_END'', 95, WORD, UNIT),
    (''BATTERY_SMART_CHARGE'', 96, BOOL, UNIT),
    (''DISCHARGE_LOW_LIMIT'', 97, WORD, UNIT),
    (''CHARGER_HIGH_LIMIT'', 98, WORD, UNIT),
    (''PV1_VOLT_ADJUST'', 99, WORD, UNIT),
    (''PV2_VOLT_ADJUST'', 100, WORD, UNIT),
    (''GRID_R_VOLT_ADJUST'', 101, WORD, UNIT),
    (''GRID_S_VOLT_ADJUST'', 102, WORD, UNIT),
    (''GRID_T_VOLT_ADJUST'', 103, WORD, UNIT),
    (''GRID_POWER_ADJUST'', 104, WORD, UNIT),
    (''BATTERY_VOLT_ADJUST'', 105, WORD, UNIT),
    (''PV1_POWER_ADJUST'', 106, WORD, UNIT),
    (''PV2_POWER_ADJUST'', 107, WORD, UNIT),
    (''BATTERY_LOW_FORCE_CHARGE_TIME'', 108, WORD, UNIT),
    (''BMS_TYPE'', 109, WORD, UNIT),
    (''SHALLOW_CHARGE'', 110, WORD, UNIT),
    (''BATTERY_CHARGE_LIMIT'', 111, WORD, UNIT),
    (''BATTERY_DISCHARGE_LIMIT'', 112, WORD, UNIT),
    (''BUZZER_SW'', 113, WORD, UNIT),
    (''BATTERY_POWER_RESERVE'', 114, WORD, UNIT),
    (''ISLAND_CHECK_CONTINUE'', 115, WORD, UNIT),
    (''TARGET_SOC'', 116, WORD, UNIT),
    (''CHG_SOC_STOP2'', 117, WORD, UNIT),
    (''DISCHARGE_SOC_STOP2'', 118, WORD, UNIT),
    (''CHG_SOC_STOP'', 119, WORD, UNIT),
    (''DISCHARGE_SOC_STOP'', 120, WORD, UNIT)]"

definition InputRegister :: "RegisterBank" where
  "InputRegister = [
    (''INVERTER_STATUS'', 0, WORD, UNIT),
    (''V_PV1'', 1, WORD, DECI),
    (''V_PV2'', 2, WORD, DECI),
    (''P_BUS_INSIDE_VOLTAGE'', 3, WORD, DECI),
    (''N_BUS_INSIDE_VOLTAGE'', 4, WORD, DECI),
    (''V_SINGLE_PHASE_GRID'', 5, WORD, DECI),
    (''E_BATTERY_THROUGHPUT_H'', 6, DWORD_HIGH, DECI),
    (''E_BATTERY_THROUGHPUT_L'', 7, DWORD_LOW, DECI),
    (''I_PV1_INPUT'', 8, WORD, CENTI),
    (''I_PV2_INPUT'', 9, WORD, CENTI),
    (''I_GRID_OUTPUT_SINGLE_PHASE'', 10, WORD, CENTI),
    (''PV_TOTAL_GENERATING_CAPACITY_H'', 11, DWORD_HIGH, DECI),
    (''PV_TOTAL_GENERATING_CAPACITY_L'', 12, DWORD_LOW, DECI),
    (''F_GRID_THREE_SINGLE_PHASE'', 13, WORD, CENTI),
    (''CHARGE_STATUS'', 14, WORD, UNIT),
    (''V_HIGHBRIGH_BUS'', 15, WORD, UNIT),
    (''PF_INVERTER_OUTPUT_NOW'', 16, WORD, UNIT),
    (''E_PV1_DAY'', 17, WORD, DECI),
    (''P_PV1_INPUT'', 18, WORD, UNIT),
    (''E_PV2_DAY'', 19, WORD, DECI),
    (''P_PV2_INPUT'', 20, WORD, UNIT),
    (''E_GRID_OUT_TOTAL_H'', 21, DWORD_HIGH, DECI),
    (''E_GRID_OUT_TOTAL_L'', 22, DWORD_LOW, DECI),
    (''PV_MATE'', 23, WORD, DECI),
    (''P_GRID_THREE_SINGLE_PHASE_OUTPUT_L'', 24, SWORD, UNIT),
    (''E_GRID_OUT_DAY'', 25, WORD, DECI),
    (''E_GRID_IN_DAY'', 26, WORD, DECI),
    (''E_INVERTER_IN_TOTAL_H'', 27, DWORD_HIGH, DECI),
    (''E_INVERTER_IN_TOTAL_L'', 28, DWORD_LOW, DECI),
    (''E_DISCHARGE_YEAR_L'', 29, WORD, DECI),
    (''P_GRID_OUTPUT'', 30, SWORD, UNIT),
    (''P_BACKUP'', 31, WORD, UNIT),
    (''P_GRID_IN_TOTAL_H'', 32, DWORD_HIGH, DECI),
    (''P_GRID_IN_TOTAL_L'', 33, DWORD_LOW, DECI),
    (''REG034'', 34, WORD, UNIT),
    (''E_TOTAL_LOAD_DAY'', 35, WORD, DECI),
    (''E_BATTERY_CHARGE_DAY'', 36, WORD, DECI),
    (''E_BATTERY_DISCHARGE_DAY'', 37, WORD, DECI),
    (''P_COUNTDOWN'', 38, WORD, UNIT),
    (''FAULT_CODE_H'', 39, DWORD_HIGH, UNIT),
    (''FAULT_CODE_L'', 40, DWORD_LOW, UNIT),
    (''TEMP_INV'', 41, WORD, DECI),
    (''P_LOAD_TOTAL'', 42, WORD, UNIT),
    (''P_GRID_APPARENT'', 43, WORD, UNIT),
    (''E_GENERATED_DAY'', 44, WORD, DECI),
    (''E_GENERATED_H'', 45, DWORD_HIGH, DECI),
    (''E_GENERATED_L'', 46, DWORD_LOW, DECI),
    (''WORK_TIME_TOTAL_H'', 47, DWORD_HIGH, UNIT),
    (''WORK_TIME_TOTAL_L'', 48, DWORD_LOW, UNIT),
    (''SYSTEM_MODE'', 49, WORD, UNIT),
    (''V_BAT'', 50, WORD, CENTI),
    (''I_BAT'', 51, SWORD, CENTI),
    (''P_BAT'', 52, SWORD, UNIT),
    (''V_OUTPUT'', 53, WORD, DECI),
    (''F_OUTPUT'', 54, WORD, CENTI),
    (''TEMP_CHARGER'', 55, WORD, DECI),
    (''TEMP_BAT'', 56, WORD, DECI),
    (''CHARGER_WARNING_CODE'', 57, WORD, UNIT),
    (''P_GRID_PORT'', 58, WORD, CENTI),
    (''BATTERY_PERCENT'', 59, WORD, UNIT),
    (''REG060'', 60, WORD, UNIT),
    (''REG061'', 61, WORD, UNIT),
    (''REG062'', 62, WORD, UNIT),
    (''REG063'', 63, WORD, UNIT),
    (''REG064'', 64, WORD, UNIT),
    (''REG065'', 65, WORD, UNIT),
    (''REG066'', 66, WORD, UNIT),
    (''REG067'', 67, WORD, UNIT),
    (''REG068'', 68, WORD, UNIT),
    (''REG069'', 69, WORD, UNIT),
    (''REG070'', 70, WORD, UNIT),
    (''REG071'', 71, WORD, UNIT),
    (''REG072'', 72, WORD, UNIT),
    (''REG073'', 73, WORD, UNIT),
    (''REG074'', 74, WORD, UNIT),
    (''REG075'', 75, WORD, UNIT),
    (''REG076'', 76, WORD, UNIT),
    (''REG077'', 77, WORD, UNIT),
    (''REG078'', 78, WORD, UNIT),
    (''REG079'', 79, WORD, UNIT),
    (''REG080'', 80, WORD, UNIT),
    (''REG081'', 81, WORD, UNIT),
    (''REG082'', 82, WORD, UNIT),
    (''REG083'', 83, WORD, UNIT),
    (''REG084'', 84, WORD, UNIT),
    (''REG085'', 85, WORD, UNIT),
    (''REG086'', 86, WORD, UNIT),
    (''REG087'', 87, WORD, UNIT),
    (''REG088'', 88, WORD, UNIT),
    (''REG089'', 89, WORD, UNIT),
    (''REG090'', 90, WORD, UNIT),
    (''REG091'', 91, WORD, UNIT),
    (''REG092'', 92, WORD, UNIT),
    (''REG093'', 93, WORD, UNIT),
    (''REG094'', 94, WORD, UNIT),
    (''REG095'', 95, WORD, UNIT),
    (''REG096'', 96, WORD, UNIT),
    (''REG097'', 97, WORD, UNIT),
    (''REG098'', 98, WORD, UNIT),
    (''REG099'', 99, WORD, UNIT),
    (''REG100'', 100, WORD, UNIT),
    (''REG101'', 101, WORD, UNIT),
    (''REG102'', 102, WORD, UNIT),
    (''REG103'', 103, WORD, UNIT),
    (''REG104'', 104, WORD, UNIT),
    (''E_BATTERY_DISCHARGE_AC_TOTAL'', 105, WORD, DECI),
    (''E_BATTERY_CHARGE_AC_TOTAL'', 106, WORD, DECI),
    (''REG107'', 107, WORD, UNIT),
    (''REG108'', 108, WORD, UNIT),
    (''REG109'', 109, WORD, UNIT),
    (''BATTERY_SERIAL_NUMBER_5'', 110, ASCII, UNIT),
    (''BATTERY_SERIAL_NUMBER_4'', 111, ASCII, UNIT),
    (''BATTERY_SERIAL_NUMBER_3'', 112, ASCII, UNIT),
    (''BATTERY_SERIAL_NUMBER_2'', 113, ASCII, UNIT),
    (''BATTERY_SERIAL_NUMBER_1'', 114, ASCII, UNIT),
    (''REG115'', 115, WORD, UNIT),
    (''REG116'', 116, WORD, UNIT),
    (''REG117'', 117, WORD, UNIT),
    (''REG118'', 118, WORD, UNIT),
    (''REG119'', 119, WORD, UNIT),
    (''REG120'', 120, WORD, UNIT),
    (''REG121'', 121, WORD, UNIT),
    (''REG122'', 122, WORD, UNIT),
    (''REG123'', 123, WORD, UNIT),
    (''REG124'', 124, WORD, UNIT),
    (''REG125'', 125, WORD, UNIT),
    (''REG126'', 126, WORD, UNIT),
    (''REG127'', 127, WORD, UNIT),
    (''REG128'', 128, WORD, UNIT),
    (''REG129'', 129, WORD, UNIT),
    (''REG130'', 130, WORD, UNIT),
    (''REG131'', 131, WORD, UNIT),
    (''REG132'', 132, WORD, UNIT),
    (''REG133'', 133, WORD, UNIT),
    (''REG134'', 134, WORD, UNIT),
    (''REG135'', 135, WORD, UNIT),
    (''REG136'', 136, WORD, UNIT),
    (''REG137'', 137, WORD, UNIT),
    (''REG138'', 138, WORD, UNIT),
    (''REG139'', 139, WORD, UNIT),
    (''REG140'', 140, WORD, UNIT),
    (''REG141'', 141, WORD, UNIT),
    (''REG142'', 142, WORD, UNIT),
    (''REG143'', 143, WORD, UNIT),
    (''REG144'', 144, WORD, UNIT),
    (''REG145'', 145, WORD, UNIT),
    (''REG146'', 146, WORD, UNIT),
    (''REG147'', 147, WORD, UNIT),
    (''REG148'', 148, WORD, UNIT),
    (''REG149'', 149, WORD, UNIT),
    (''REG150'', 150, WORD, UNIT),
    (''REG151'', 151, WORD, UNIT),
    (''REG152'', 152, WORD, UNIT),
    (''REG153'', 153, WORD, UNIT),
    (''REG154'', 154, WORD, UNIT),
    (''REG155'', 155, WORD, UNIT),
    (''REG156'', 156, WORD, UNIT),
    (''REG157'', 157, WORD, UNIT),
    (''REG158'', 158, WORD, UNIT),
    (''REG159'', 159, WORD, UNIT),
    (''REG160'', 160, WORD, UNIT),
    (''REG161'', 161, WORD, UNIT),
    (''REG162'', 162, WORD, UNIT),
    (''REG163'', 163, WORD, UNIT),
    (''REG164'', 164, WORD, UNIT),
    (''REG165'', 165, WORD, UNIT),
    (''REG166'', 166, WORD, UNIT),
    (''REG167'', 167, WORD, UNIT),
    (''REG168'', 168, WORD, UNIT),
    (''REG169'', 169, WORD, UNIT),
    (''REG170'', 170, WORD, UNIT),
    (''REG171'', 171, WORD, UNIT),
    (''REG172'', 172, WORD, UNIT),
    (''REG173'', 173, WORD, UNIT),
    (''REG174'', 174, WORD, UNIT),
    (''REG175'', 175, WORD, UNIT),
    (''REG176'', 176, WORD, UNIT),
    (''REG177'', 177, WORD, UNIT),
    (''REG178'', 178, WORD, UNIT),
    (''REG179'', 179, WORD, UNIT),
    (''E_BATTERY_DISCHARGE_TOTAL'', 180, WORD, DECI),
    (''E_BATTERY_CHARGE_TOTAL'', 181, WORD, DECI)]"

section \<open>Properties of render\<close>

lemma bit15_iff:
  fixes v :: int
  assumes "0 \<le> v" "v < 65536"
  shows "and v (push_bit (16 - 1) 1) \<noteq> 0 \<longleftrightarrow> 32768 \<le> v"
proof -
  have e: "push_bit (16 - 1) (1::int) = 2 ^ 15" by (simp add: push_bit_of_1)
  have "and v (2 ^ 15) \<noteq> 0 \<longleftrightarrow> bit v 15"
    by (simp only: and_exp_eq_0_iff_not_bit not_not)
  also have "\<dots> \<longleftrightarrow> odd (v div 32768)"
    by (simp add: bit_iff_odd)
  also have "\<dots> \<longleftrightarrow> 32768 \<le> v"
  proof
    assume "odd (v div 32768)"
    then have "v div 32768 \<noteq> 0" by auto
    with assms show "32768 \<le> v" by (cases "v < 32768") simp_all
  next
    assume h: "32768 \<le> v"
    with assms have "v div 32768 = 1" by simp
    then show "odd (v div 32768)" by simp
  qed
  finally show ?thesis unfolding e .
qed

text \<open>
  C7. For every raw word \<open>v\<close> (from 0 to 65535), rendering \<open>v\<close> as a signed word with unit
  scaling gives the integer \<open>v\<close> below 32768 and \<open>v - 65536\<close> from there on. With the scaling
  \<open>DECI\<close> or \<open>CENTI\<close> the result is the float product of that same decoded value with the
  factor of the scaling (0.1 or 0.01): the sign is decoded first, and the decoded value,
  not the raw word, is what is multiplied.
\<close>

theorem render_sword_twos_complement:
  assumes "0 \<le> v" and "v < 65536"
  shows "render SWORD v UNIT = Inr (RInt (if v < 32768 then v else v - 65536)) \<and>
         render SWORD v DECI = Inr (RFloat (if v < 32768 then v else v - 65536) DECI) \<and>
         render SWORD v CENTI = Inr (RFloat (if v < 32768 then v else v - 65536) CENTI)"
proof -
  have sw: "render SWORD v s = Inr (times_scaling (if v < 32768 then v else v - 65536) s)" for s
    unfolding render_def bit15_iff [OF assms] by (simp add: linorder_not_le)
  have u: "render SWORD v UNIT = Inr (RInt (if v < 32768 then v else v - 65536))"
    using sw [of UNIT] by (simp add: times_scaling_def)
  have d: "render SWORD v DECI = Inr (RFloat (if v < 32768 then v else v - 65536) DECI)"
    using sw [of DECI] by (simp add: times_scaling_def)
  have c: "render SWORD v CENTI = Inr (RFloat (if v < 32768 then v else v - 65536) CENTI)"
    using sw [of CENTI] by (simp add: times_scaling_def)
  from u d c show ?thesis by blast
qed

theorem render_sword_twos_complement_witness:
  "(0::int) \<le> 65535 \<and> (65535::int) < 65536 \<and>
   render SWORD 65535 UNIT = Inr (RInt (- 1)) \<and>
   render SWORD 65535 DECI = Inr (RFloat (- 1) DECI) \<and>
   render SWORD 65535 CENTI = Inr (RFloat (- 1) CENTI)"
  using render_sword_twos_complement [of 65535] by simp

text \<open>
  C4, as the claim states it, fails: the raw word 0x8041 is a 16-bit value, and rendering it
  as \<open>ASCII\<close> raises \<^verbatim>\<open>UnicodeDecodeError\<close>, because the strict \<^verbatim>\<open>ascii\<close> codec rejects the byte
  0x80.
\<close>

theorem render_ascii_high_byte_counterexample:
  "(0::int) \<le> 32833 \<and> (32833::int) < 65536 \<and>
   render ASCII 32833 UNIT =
     Inl (UnicodeDecodeError ''ascii codec cannot decode byte: ordinal not in range(128)'')"
  by (simp add: render_def to_bytes2_def decode_ascii_def)

text \<open>
  C4, amended. On every raw word from 0 to 65535 and with every scaling, \<open>render\<close> returns a
  value for every type but \<open>ASCII\<close>. For \<open>ASCII\<close> it returns the two-character string of the
  word's two bytes, most significant first, when both bytes are below 128 (printable or
  not), and raises \<^verbatim>\<open>UnicodeDecodeError\<close> when one of them is 128 or more.
\<close>

theorem render_total_except_ascii:
  assumes "0 \<le> v" and "v < 65536"
  shows "(t \<noteq> ASCII \<longrightarrow> (\<exists>r. render t v s = Inr r)) \<and>
         render ASCII v s =
           (if v div 256 < 128 \<and> v mod 256 < 128
            then Inr (RStr [char_of (nat (v div 256)), char_of (nat (v mod 256))])
            else Inl (UnicodeDecodeError ''ascii codec cannot decode byte: ordinal not in range(128)''))"
proof -
  have a: "t \<noteq> ASCII \<longrightarrow> (\<exists>r. render t v s = Inr r)"
    by (simp add: render_def)
  have b: "to_bytes2 v = Inr [nat (v div 256), nat (v mod 256)]"
    using assms by (simp add: to_bytes2_def)
  have c: "nat (v div 256) < 128 \<longleftrightarrow> v div 256 < 128" "nat (v mod 256) < 128 \<longleftrightarrow> v mod 256 < 128"
    using assms by auto
  show ?thesis using a b c by (simp add: render_def decode_ascii_def)
qed

theorem render_total_except_ascii_witness:
  "(0::int) \<le> 263 \<and> (263::int) < 65536 \<and> BOOL \<noteq> ASCII \<and> (\<exists>r. render BOOL 263 DECI = Inr r) \<and>
   render ASCII 263 DECI = Inr (RStr [char_of (1::nat), char_of (7::nat)])"
  using render_total_except_ascii [of 263 BOOL DECI] by simp

section \<open>Properties of the cache\<close>

subsection \<open>Lookups of absent registers\<close>

lemma update_absent: "map_of c r = None \<Longrightarrow> AList.update r v c = c @ [(r, v)]"
  by (induction c) (auto split: if_splits)

lemma getitem_absent: "map_of c r = None \<Longrightarrow> getitem c r = (PyNone, c @ [(r, PyNone)])"
  by (simp add: getitem_def update_absent)

lemma getitem_present: "map_of c r = Some v \<Longrightarrow> getitem c r = (v, c)"
  by (simp add: getitem_def)

lemma absent_iff: "r \<notin> fst ` set c \<longleftrightarrow> map_of c r = None"
  by (simp add: map_of_eq_None_iff)

lemma no_register_text:
  assumes "CHR ''H'' \<notin> set m" and "CHR ''I'' \<notin> set m"
  shows "\<not> sublist (canonical_text r) m"
proof
  assume "sublist (canonical_text r) m"
  then have "set (canonical_text r) \<subseteq> set m" by (rule set_mono_sublist)
  with assms show False by (cases r) auto
qed

text \<open>
  C9. A subscript lookup of a register that is not a key of the cache returns \<^verbatim>\<open>None\<close> and
  appends the register with the value \<^verbatim>\<open>None\<close> to the cache. Afterwards \<open>get\<close> finds the entry
  (its default is not used), a second lookup returns the stored \<^verbatim>\<open>None\<close>, and the
  serialization has a member for it. Every composition helper that looks the register up
  leaves the cache with that entry, also when it raises.
\<close>

theorem subscript_inserts_none:
  assumes "r \<notin> fst ` set c"
  shows "getitem c r = (PyNone, c @ [(r, PyNone)]) \<and>
         r \<in> fst ` set (snd (getitem c r)) \<and>
         get (snd (getitem c r)) r (PyInt 1) = PyNone \<and>
         getitem (snd (getitem c r)) r = (PyNone, c @ [(r, PyNone)]) \<and>
         json key (snd (getitem c r)) = json key c @ [(key r, PyNone)] \<and>
         snd (to_string c [r]) = c @ [(r, PyNone)] \<and>
         snd (to_hex_string c [r]) = c @ [(r, PyNone)] \<and>
         snd (to_duint8 c [r]) = c @ [(r, PyNone)] \<and>
         snd (to_uint32 c r lo) = c @ [(r, PyNone)] \<and>
         snd (to_datetime c r m d h mi s) = c @ [(r, PyNone)]"
proof -
  from assms have a: "map_of c r = None" by (simp add: absent_iff)
  have g: "getitem c r = (PyNone, c @ [(r, PyNone)])" by (rule getitem_absent [OF a])
  have p: "map_of (c @ [(r, PyNone)]) r = Some PyNone" using a by (simp add: map_add_def)
  have 1: "get (snd (getitem c r)) r (PyInt 1) = PyNone" unfolding g get_def snd_conv p by simp
  have 2: "getitem (snd (getitem c r)) r = (PyNone, c @ [(r, PyNone)])"
    unfolding g snd_conv by (rule getitem_present [OF p])
  have 3: "json key (snd (getitem c r)) = json key c @ [(key r, PyNone)]" by (simp add: g json_def)
  have 4: "snd (to_string c [r]) = c @ [(r, PyNone)]" by (simp add: to_string_def g)
  have 5: "snd (to_hex_string c [r]) = c @ [(r, PyNone)]" by (simp add: to_hex_string_def g format_04x_def)
  have 6: "snd (to_duint8 c [r]) = c @ [(r, PyNone)]" by (simp add: g)
  have 7: "snd (to_uint32 c r lo) = c @ [(r, PyNone)]" by (simp add: to_uint32_def g)
  have 8: "snd (to_datetime c r m d h mi s) = c @ [(r, PyNone)]" by (simp add: to_datetime_def g add_2000_def)
  have 0: "r \<in> fst ` set (snd (getitem c r))" by (simp add: g)
  from g 0 1 2 3 4 5 6 7 8 show ?thesis by blast
qed

theorem subscript_inserts_none_witness:
  "HR 5 \<notin> fst ` set [(HR 1, PyInt 7)] \<and>
   getitem [(HR 1, PyInt 7)] (HR 5) = (PyNone, [(HR 1, PyInt 7), (HR 5, PyNone)]) \<and>
   json canonical_text (snd (getitem [(HR 1, PyInt 7)] (HR 5))) = [(''HR(1)'', PyInt 7), (''HR(5)'', PyNone)] \<and>
   snd (to_string [(HR 1, PyInt 7)] [HR 5]) = [(HR 1, PyInt 7), (HR 5, PyNone)]"
  using subscript_inserts_none [of "HR 5" "[(HR 1, PyInt 7)]" canonical_text] by code_simp

lemma to_uint32_absent:
  assumes "map_of c r = None" and "r = hi \<or> r = lo"
  shows "\<exists>m. fst (to_uint32 c hi lo) = Inl (TypeError m) \<and> CHR ''H'' \<notin> set m \<and> CHR ''I'' \<notin> set m"
proof (cases "map_of c hi")
  case None
  then show ?thesis by (simp add: to_uint32_def getitem_absent)
next
  case (Some v)
  show ?thesis
  proof (cases v)
    case PyNone
    with Some show ?thesis by (simp add: to_uint32_def getitem_present)
  next
    case (PyInt n)
    from Some assms have "map_of c lo = None" by auto
    with Some PyInt show ?thesis by (simp add: to_uint32_def getitem_present getitem_absent)
  qed
qed

lemma to_string_parts_absent:
  "r \<in> set rs \<Longrightarrow> map_of c r = None \<Longrightarrow>
   \<exists>m. (fst (to_string_parts c rs) = Inl (AttributeError m) \<or> fst (to_string_parts c rs) = Inl (OverflowError m))
      \<and> CHR ''H'' \<notin> set m \<and> CHR ''I'' \<notin> set m"
proof (induction rs arbitrary: c)
  case Nil
  then show ?case by simp
next
  case (Cons a rs)
  show ?case
  proof (cases "map_of c a")
    case None
    then show ?thesis by (simp add: getitem_absent)
  next
    case (Some v)
    with Cons.prems have ne: "r \<noteq> a" by auto
    with Cons.prems have mem: "r \<in> set rs" by simp
    show ?thesis
    proof (cases v)
      case PyNone
      with Some show ?thesis by (simp add: getitem_present)
    next
      case (PyInt n)
      from Cons.IH [OF mem Cons.prems(2)] obtain m where
        m: "fst (to_string_parts c rs) = Inl (AttributeError m) \<or> fst (to_string_parts c rs) = Inl (OverflowError m)"
           "CHR ''H'' \<notin> set m" "CHR ''I'' \<notin> set m" by blast
      show ?thesis
      proof (cases "to_bytes2 n")
        case (Inl e)
        with Some PyInt show ?thesis
          by (auto simp: getitem_present to_bytes2_def split: if_splits)
      next
        case (Inr bs)
        with Some PyInt m show ?thesis
          by (cases "to_string_parts c rs") (auto simp: getitem_present)
      qed
    qed
  qed
qed

lemma hex_values_absent:
  "r \<in> set rs \<Longrightarrow> map_of c r = None \<Longrightarrow>
   \<exists>m. fst (hex_values c rs) = Inl (TypeError m) \<and> CHR ''H'' \<notin> set m \<and> CHR ''I'' \<notin> set m"
proof (induction rs arbitrary: c)
  case Nil
  then show ?case by simp
next
  case (Cons a rs)
  show ?case
  proof (cases "map_of c a")
    case None
    then show ?thesis by (simp add: getitem_absent format_04x_def)
  next
    case (Some v)
    with Cons.prems have ne: "r \<noteq> a" by auto
    with Cons.prems have mem: "r \<in> set rs" by simp
    show ?thesis
    proof (cases v)
      case PyNone
      with Some show ?thesis by (simp add: getitem_present format_04x_def)
    next
      case (PyInt n)
      from Cons.IH [OF mem Cons.prems(2)] obtain m where
        m: "fst (hex_values c rs) = Inl (TypeError m)" "CHR ''H'' \<notin> set m" "CHR ''I'' \<notin> set m" by blast
      have "\<exists>s. format_04x (PyInt n) = Inr s" by (simp add: format_04x_def Let_def)
      then obtain s where s: "format_04x (PyInt n) = Inr s" by blast
      with Some PyInt m show ?thesis
        by (cases "hex_values c rs") (auto simp: getitem_present)
    qed
  qed
qed

lemma to_duint8_absent:
  "r \<in> set rs \<Longrightarrow> map_of c r = None \<Longrightarrow>
   \<exists>m. fst (to_duint8 c rs) = Inl (TypeError m) \<and> CHR ''H'' \<notin> set m \<and> CHR ''I'' \<notin> set m"
proof (induction rs arbitrary: c)
  case Nil
  then show ?case by simp
next
  case (Cons a rs)
  show ?case
  proof (cases "map_of c a")
    case None
    then show ?thesis by (simp add: getitem_absent)
  next
    case (Some v)
    with Cons.prems have ne: "r \<noteq> a" by auto
    with Cons.prems have mem: "r \<in> set rs" by simp
    show ?thesis
    proof (cases v)
      case PyNone
      with Some show ?thesis by (simp add: getitem_present)
    next
      case (PyInt n)
      from Cons.IH [OF mem Cons.prems(2)] obtain m where
        m: "fst (to_duint8 c rs) = Inl (TypeError m)" "CHR ''H'' \<notin> set m" "CHR ''I'' \<notin> set m" by blast
      with Some PyInt show ?thesis
        by (cases "to_duint8 c rs") (auto simp: getitem_present)
    qed
  qed
qed

text \<open>
  C2, as the claim states it, fails: on the empty cache \<open>to_uint32\<close> raises a \<^verbatim>\<open>TypeError\<close>,
  the one Python raises for shifting \<^verbatim>\<open>None\<close>, and its message does not contain the text of
  the register that was missing.
\<close>

theorem to_uint32_absent_counterexample:
  "fst (to_uint32 [] (HR 0) (HR 1)) = Inl (TypeError ''unsupported operand type(s) for <<: NoneType and int'') \<and>
   \<not> sublist (canonical_text (HR 0)) (message (TypeError ''unsupported operand type(s) for <<: NoneType and int''))"
  by code_simp

text \<open>
  C2, amended. \<open>get\<close> on the empty cache returns \<^verbatim>\<open>None\<close>, which is not the integer 0, for
  every register. When a register that a helper needs is not a key of the cache, the helper
  raises: \<open>to_uint32\<close>, \<open>to_hex_string\<close> and \<open>to_duint8\<close> a \<^verbatim>\<open>TypeError\<close>, \<open>to_string\<close> an
  \<^verbatim>\<open>AttributeError\<close> (or the \<^verbatim>\<open>OverflowError\<close> of an earlier register whose value has no two-byte
  form). The message of the exception never contains the text of the missing register.
\<close>

theorem absent_register_raises:
  "get [] r PyNone = PyNone \<and> PyNone \<noteq> PyInt 0 \<and>
   (r \<notin> fst ` set c \<longrightarrow>
      (r = hi \<or> r = lo \<longrightarrow>
         (\<exists>m. fst (to_uint32 c hi lo) = Inl (TypeError m) \<and> \<not> sublist (canonical_text r) m)) \<and>
      (r \<in> set rs \<longrightarrow>
         (\<exists>m. (fst (to_string c rs) = Inl (AttributeError m) \<or> fst (to_string c rs) = Inl (OverflowError m))
            \<and> \<not> sublist (canonical_text r) m) \<and>
         (\<exists>m. fst (to_hex_string c rs) = Inl (TypeError m) \<and> \<not> sublist (canonical_text r) m) \<and>
         (\<exists>m. fst (to_duint8 c rs) = Inl (TypeError m) \<and> \<not> sublist (canonical_text r) m)))"
proof -
  have g: "get [] r PyNone = PyNone" by (simp add: get_def)
  {
    assume "r \<notin> fst ` set c"
    then have a: "map_of c r = None" by (simp add: absent_iff)
    have u: "r = hi \<or> r = lo \<longrightarrow>
         (\<exists>m. fst (to_uint32 c hi lo) = Inl (TypeError m) \<and> \<not> sublist (canonical_text r) m)"
      using to_uint32_absent [OF a] no_register_text by blast
    {
      assume mem: "r \<in> set rs"
      from to_string_parts_absent [OF mem a] obtain m where
        m: "fst (to_string_parts c rs) = Inl (AttributeError m) \<or> fst (to_string_parts c rs) = Inl (OverflowError m)"
           "CHR ''H'' \<notin> set m" "CHR ''I'' \<notin> set m" by blast
      then have "fst (to_string c rs) = Inl (AttributeError m) \<or> fst (to_string c rs) = Inl (OverflowError m)"
        by (cases "to_string_parts c rs") (auto simp: to_string_def)
      with m have s: "\<exists>m. (fst (to_string c rs) = Inl (AttributeError m) \<or> fst (to_string c rs) = Inl (OverflowError m))
            \<and> \<not> sublist (canonical_text r) m" using no_register_text by blast
      from hex_values_absent [OF mem a] obtain m' where
        m': "fst (hex_values c rs) = Inl (TypeError m')" "CHR ''H'' \<notin> set m'" "CHR ''I'' \<notin> set m'" by blast
      then have "fst (to_hex_string c rs) = Inl (TypeError m')"
        by (cases "hex_values c rs") (auto simp: to_hex_string_def)
      with m' have h: "\<exists>m. fst (to_hex_string c rs) = Inl (TypeError m) \<and> \<not> sublist (canonical_text r) m"
        using no_register_text by blast
      have d: "\<exists>m. fst (to_duint8 c rs) = Inl (TypeError m) \<and> \<not> sublist (canonical_text r) m"
        using to_duint8_absent [OF mem a] no_register_text by blast
      note s h d
    }
    note u this
  }
  with g show ?thesis by blast
qed

theorem absent_register_raises_witness:
  "get [] (IR 3) PyNone = PyNone \<and> IR 3 \<notin> fst ` set [(HR 1, PyInt 7)] \<and> IR 3 \<in> set [HR 1, IR 3] \<and>
   (\<exists>m. fst (to_uint32 [(HR 1, PyInt 7)] (HR 1) (IR 3)) = Inl (TypeError m) \<and> \<not> sublist (canonical_text (IR 3)) m) \<and>
   (\<exists>m. fst (to_hex_string [(HR 1, PyInt 7)] [HR 1, IR 3]) = Inl (TypeError m) \<and> \<not> sublist (canonical_text (IR 3)) m)"
  using absent_register_raises [of "IR 3" "[(HR 1, PyInt 7)]" "HR 1" "IR 3" "[HR 1, IR 3]"] by simp

text \<open>
  C8. When both registers hold an integer, \<open>to_uint32\<close> returns the high word shifted left
  by 16 bits plus the low word, computed on the stored words themselves (no type and no
  scaling enter the computation), and leaves the cache as it was.
\<close>

theorem to_uint32_raw_words:
  assumes "map_of c high_register = Some (PyInt hi)" and "map_of c low_register = Some (PyInt lo)"
  shows "to_uint32 c high_register low_register = (Inr (push_bit 16 hi + lo), c) \<and>
         push_bit 16 hi + lo = hi * 65536 + lo"
  using assms by (simp add: to_uint32_def getitem_def push_bit_eq_mult)

theorem to_uint32_raw_words_witness:
  "map_of [(HR 1, PyInt 1), (HR 2, PyInt 2)] (HR 1) = Some (PyInt 1) \<and>
   map_of [(HR 1, PyInt 1), (HR 2, PyInt 2)] (HR 2) = Some (PyInt 2) \<and>
   to_uint32 [(HR 1, PyInt 1), (HR 2, PyInt 2)] (HR 1) (HR 2) = (Inr 65538, [(HR 1, PyInt 1), (HR 2, PyInt 2)])"
  using to_uint32_raw_words [of "[(HR 1, PyInt 1), (HR 2, PyInt 2)]" "HR 1" 1 "HR 2" 2] by simp

subsection \<open>to\_hex\_string and to\_datetime\<close>

lemma digits_nonempty: "digits b n \<noteq> []"
  by (subst digits.simps) simp

lemma format_04x_nonempty: "format_04x v = Inr s \<Longrightarrow> s \<noteq> []"
  by (cases v) (auto simp: format_04x_def Let_def digits_nonempty split: if_splits)

lemma hex_values_truthy: "hex_values c rs = (Inr vs, c') \<Longrightarrow> all_truthy vs"
proof (induction rs arbitrary: c vs c')
  case Nil
  then show ?case by (simp add: all_truthy_def)
next
  case (Cons r rs)
  then show ?case
    by (auto simp: all_truthy_def format_04x_nonempty split: prod.splits sum.splits)
qed


text \<open>
  C5. The claim has \<open>to_hex_string\<close> return the empty string for one register holding 0. The
  code returns \<^verbatim>\<open>0000\<close> there: the list \<open>values\<close> holds the formatted strings, none of which
  is empty (\<open>hex_values_truthy\<close>), so \<^verbatim>\<open>all(values)\<close> is true and the branch returning the
  empty string is never taken.
\<close>

theorem to_hex_string_zero:
  "to_hex_string [(HR 0, PyInt 0)] [HR 0] = (Inr (codepoints ''0000''), [(HR 0, PyInt 0)])"
  by code_simp

lemma zero_date_raises: "zero_date = Inl (ValueError ''month must be in 1..12'')"
  by (simp add: zero_date_def datetime_new_def)

lemma to_datetime_error:
  "fst (to_datetime c y m d h mi s) = Inl e \<Longrightarrow> e = ValueError ''month must be in 1..12''"
  by (auto simp: to_datetime_def zero_date_raises Let_def split: prod.splits sum.splits)

text \<open>
  C1. The claim has \<open>to_datetime\<close> return the year-2000 timestamp when a field is out of
  range. With the year register 22 and the month register 13 the code raises \<^verbatim>\<open>ValueError\<close>:
  the handler builds its timestamp with month 0 and day 0, which the constructor rejects
  (\<open>zero_date_raises\<close>), and that exception leaves \<open>to_datetime\<close>.
\<close>

theorem to_datetime_month_13:
  "to_datetime
     [(HR 35, PyInt 22), (HR 36, PyInt 13), (HR 37, PyInt 1), (HR 38, PyInt 0), (HR 39, PyInt 0), (HR 40, PyInt 0)]
     (HR 35) (HR 36) (HR 37) (HR 38) (HR 39) (HR 40) =
   (Inl (ValueError ''month must be in 1..12''),
     [(HR 35, PyInt 22), (HR 36, PyInt 13), (HR 37, PyInt 1), (HR 38, PyInt 0), (HR 39, PyInt 0), (HR 40, PyInt 0)])"
  by code_simp

section \<open>Properties of the serialization\<close>

subsection \<open>Decimal text and keys\<close>

lemma is_digit_digit_char: "d < 10 \<Longrightarrow> is_digit (digit_char d)"
  by (simp add: is_digit_def digit_char_def)

lemma digit_val_digit_char: "d < 10 \<Longrightarrow> digit_val (digit_char d) = d"
  by (simp add: digit_val_def digit_char_def)

lemma digits10_all_digit: "list_all is_digit (digits 10 n)"
proof (induction "10::nat" n rule: digits.induct)
  case (1 n)
  show ?case
  proof (cases "n < 10")
    case True
    then show ?thesis by (subst digits.simps) (simp add: is_digit_digit_char)
  next
    case False
    with 1 have "list_all is_digit (digits 10 (n div 10))" by simp
    with False show ?thesis by (subst digits.simps) (simp add: is_digit_digit_char)
  qed
qed

lemma digits_value_snoc: "digits_value (ds @ [d]) = 10 * digits_value ds + d"
  by (simp add: digits_value_def)

lemma digits10_value: "digits_value (map digit_val (digits 10 n)) = n"
proof (induction "10::nat" n rule: digits.induct)
  case (1 n)
  show ?case
  proof (cases "n < 10")
    case True
    then show ?thesis by (subst digits.simps) (simp add: digit_val_digit_char digits_value_def)
  next
    case False
    with 1 have "digits_value (map digit_val (digits 10 (n div 10))) = n div 10" by simp
    with False show ?thesis
      by (subst digits.simps) (simp add: digit_val_digit_char digits_value_snoc)
  qed
qed

lemma is_digit_not_underscore: "is_digit ch \<Longrightarrow> ch \<noteq> CHR ''_''"
  by (auto simp: is_digit_def)

lemma int_digits_all: "ds \<noteq> [] \<Longrightarrow> list_all is_digit ds \<Longrightarrow> int_digits ds = Some (map digit_val ds)"
proof (induction ds rule: int_digits.induct)
  case 1
  then show ?case by simp
next
  case (2 ch)
  then show ?case by simp
next
  case (3 ch d cs)
  then have "d \<noteq> CHR ''_''" by (simp add: is_digit_not_underscore)
  with 3 show ?case by simp
qed

lemma strip_id:
  assumes "s \<noteq> []" and "\<not> is_space (hd s)" and "\<not> is_space (last s)"
  shows "strip s = s"
proof -
  from assms have a: "dropWhile is_space s = s" by (cases s) simp_all
  from assms have "rev s \<noteq> []" "\<not> is_space (hd (rev s))" by (simp_all add: hd_rev)
  then have "dropWhile is_space (rev s) = rev s" by (cases "rev s") simp_all
  with a show ?thesis by (simp add: strip_def)
qed

lemma is_digit_not_space: "is_digit ch \<Longrightarrow> \<not> is_space ch"
  by (auto simp: is_digit_def is_space_def Let_def)

lemma is_digit_not_sign: "is_digit ch \<Longrightarrow> ch \<noteq> CHR ''-'' \<and> ch \<noteq> CHR ''+''"
  by (auto simp: is_digit_def)

lemma digits10_ends: "is_digit (hd (digits 10 n)) \<and> is_digit (last (digits 10 n))"
  using digits10_all_digit [of n] digits_nonempty [of 10 n]
  by (simp add: list_all_iff)

lemma py_int_str_int: "py_int (str_int n) = Inr n"
proof (cases "n < 0")
  case True
  let ?ds = "digits 10 (nat (- n))"
  have s: "str_int n = CHR ''-'' # ?ds" using True by (simp add: str_int_def)
  have "\<not> is_space (last (CHR ''-'' # ?ds))"
    using digits10_ends [of "nat (- n)"] digits_nonempty [of 10 "nat (- n)"] by (simp add: is_digit_not_space)
  moreover have "\<not> is_space CHR ''-''" by (simp add: is_space_def)
  ultimately have st: "strip (CHR ''-'' # ?ds) = CHR ''-'' # ?ds" by (intro strip_id) simp_all
  have "int_digits ?ds = Some (map digit_val ?ds)"
    by (rule int_digits_all [OF digits_nonempty digits10_all_digit])
  with True show ?thesis by (simp add: py_int_def s st digits10_value)
next
  case False
  let ?ds = "digits 10 (nat n)"
  have s: "str_int n = ?ds" using False by (simp add: str_int_def)
  obtain ch cs where c: "?ds = ch # cs" using digits_nonempty [of 10 "nat n"] by (cases ?ds) auto
  have e: "is_digit ch" "is_digit (last ?ds)" using digits10_ends [of "nat n"] c by simp_all
  have st: "strip ?ds = ?ds"
    using e c by (intro strip_id) (simp_all add: is_digit_not_space)
  have i: "int_digits ?ds = Some (map digit_val ?ds)"
    by (rule int_digits_all [OF digits_nonempty digits10_all_digit])
  have v: "digits_value (map digit_val ?ds) = nat n" by (rule digits10_value)
  from is_digit_not_sign [OF e(1)] have ns: "ch \<noteq> CHR ''-''" "ch \<noteq> CHR ''+''" by simp_all
  have "py_int ?ds = Inr (int (nat n))"
    unfolding py_int_def st using i v c ns by (simp add: Let_def)
  with False show ?thesis by (simp add: s)
qed

lemma split_key_canonical_text:
  "split_key (canonical_text (HR n)) = Inr (''HR'', str_int n)"
  "split_key (canonical_text (IR n)) = Inr (''IR'', str_int n)"
  by (simp_all add: split_key_def find_char_def split1_def butlast_append)

lemma make_register_str_int:
  "make_register ''HR'' (str_int n) = Inr (HR n)"
  "make_register ''IR'' (str_int n) = Inr (IR n)"
  by (simp_all add: make_register_def lookup_def py_int_str_int)

lemma hook_loop_canonical_text:
  "hook_loop ret ((canonical_text r, v) # kvs) = hook_loop (AList.update r v ret) kvs"
  by (cases r) (simp_all add: split_key_canonical_text make_register_str_int del: canonical_text.simps)

lemma canonical_text_inj: "canonical_text r = canonical_text r' \<Longrightarrow> r = r'"
proof -
  assume e: "canonical_text r = canonical_text r'"
  have "hook_loop [] [(canonical_text r, PyNone)] = Inr [(r, PyNone)]" for r
    by (simp add: hook_loop_canonical_text del: canonical_text.simps hook_loop.simps(2))
  from this [of r] this [of r'] e show ?thesis by simp
qed

lemma foldl_update_distinct:
  "distinct (map fst (acc @ xs)) \<Longrightarrow> foldl (\<lambda>d (k, v). AList.update k v d) acc xs = acc @ xs"
proof (induction xs arbitrary: acc)
  case Nil
  then show ?case by simp
next
  case (Cons x xs)
  obtain k v where x: "x = (k, v)" by (cases x)
  from Cons.prems x have "map_of acc k = None" by (auto simp: map_of_eq_None_iff)
  then have u: "AList.update k v acc = acc @ [(k, v)]" by (rule update_absent)
  from Cons.prems x have "distinct (map fst ((acc @ [(k, v)]) @ xs))" by simp
  from Cons.IH [OF this] show ?case by (simp add: x u)
qed

lemma py_dict_distinct: "distinct (map fst xs) \<Longrightarrow> py_dict xs = xs"
  using foldl_update_distinct [of "[]" xs] by (simp add: py_dict_def)

lemma hook_loop_json:
  "distinct (map fst (ret @ c)) \<Longrightarrow> hook_loop ret (json canonical_text c) = Inr (ret @ c)"
proof (induction c arbitrary: ret)
  case Nil
  then show ?case by (simp add: json_def)
next
  case (Cons x c)
  obtain r v where x: "x = (r, v)" by (cases x)
  from Cons.prems x have "map_of ret r = None" by (auto simp: map_of_eq_None_iff)
  then have u: "AList.update r v ret = ret @ [(r, v)]" by (rule update_absent)
  from Cons.prems x have "distinct (map fst ((ret @ [(r, v)]) @ c))" by simp
  from Cons.IH [OF this] have "hook_loop (ret @ [(r, v)]) (json canonical_text c) = Inr (ret @ (r, v) # c)" by simp
  moreover have "json canonical_text (x # c) = (canonical_text r, v) # json canonical_text c" by (simp add: json_def x)
  ultimately show ?case by (simp add: hook_loop_canonical_text u x del: canonical_text.simps hook_loop.simps(2))
qed

lemma json_keys_distinct: "distinct (map fst c) \<Longrightarrow> distinct (map fst (json canonical_text c))"
proof -
  assume d: "distinct (map fst c)"
  have m: "map fst (json canonical_text c) = map canonical_text (map fst c)" by (simp add: json_def case_prod_unfold)
  have "inj_on canonical_text (set (map fst c))" by (rule inj_onI) (rule canonical_text_inj)
  with d have "distinct (map canonical_text (map fst c))" by (rule distinct_map [THEN iffD2, OF conjI])
  then show ?thesis unfolding m .
qed


lemma json_canonical:
  "\<forall>r \<in> fst ` set c. key r = canonical_text r \<Longrightarrow> json key c = json canonical_text c"
  by (auto simp: json_def)

text \<open>
  C3. For every cache (a dictionary: no key occurs twice) whose registers are all written
  under their canonical text, reading back what \<open>json\<close> writes gives the cache itself: the
  same registers with the same values, here even in the same order.
\<close>

theorem from_json_json_roundtrip:
  assumes "distinct (map fst c)" and "\<forall>r \<in> fst ` set c. key r = canonical_text r"
  shows "from_json (json key c) = Inr c"
proof -
  have k: "json key c = json canonical_text c"
    by (rule json_canonical [OF assms(2)])
  have "py_dict (json canonical_text c) = json canonical_text c"
    by (rule py_dict_distinct [OF json_keys_distinct [OF assms(1)]])
  moreover have "hook_loop [] (json canonical_text c) = Inr c"
    using hook_loop_json [of "[]" c] assms(1) by simp
  ultimately show ?thesis
    unfolding k by (simp add: from_json_def register_object_hook_def RegisterCache_init_def)
qed

theorem from_json_json_roundtrip_witness:
  "distinct (map fst [(HR 35, PyInt 22), (IR (- 3), PyNone), (IR 120, PyInt 65535)]) \<and>
   json canonical_text [(HR 35, PyInt 22), (IR (- 3), PyNone), (IR 120, PyInt 65535)] =
     [(''HR(35)'', PyInt 22), (''IR(-3)'', PyNone), (''IR(120)'', PyInt 65535)] \<and>
   from_json [(''HR(35)'', PyInt 22), (''IR(-3)'', PyNone), (''IR(120)'', PyInt 65535)] =
     Inr [(HR 35, PyInt 22), (IR (- 3), PyNone), (IR 120, PyInt 65535)]"
proof -
  have j: "json canonical_text [(HR 35, PyInt 22), (IR (- 3), PyNone), (IR 120, PyInt 65535)] =
     [(''HR(35)'', PyInt 22), (''IR(-3)'', PyNone), (''IR(120)'', PyInt 65535)]" by code_simp
  have d: "distinct (map fst [(HR 35, PyInt 22), (IR (- 3), PyNone), (IR 120, PyInt 65535)])" by simp
  from from_json_json_roundtrip [OF d, of canonical_text] show ?thesis unfolding j using d by simp
qed

subsection \<open>Keys that do not name a register\<close>

lemma py_int_error: "py_int idx = Inl e \<Longrightarrow> \<exists>m. e = ValueError m"
  by (auto simp: py_int_def Let_def split: option.splits prod.splits)

lemma foldl_update_keys:
  "fst ` set (foldl (\<lambda>d (k, v). AList.update k v d) acc xs) = fst ` set acc \<union> fst ` set xs"
proof (induction xs arbitrary: acc)
  case Nil
  show ?case by simp
next
  case (Cons x xs)
  obtain k v where x: "x = (k, v)" by (cases x)
  show ?case by (simp add: x Cons.IH dom_update)
qed

lemma py_dict_keys: "fst ` set (py_dict xs) = fst ` set xs"
  by (simp add: py_dict_def foldl_update_keys)

lemma filter_update_same: "filter (\<lambda>p. fst p \<noteq> k) (AList.update k v al) = filter (\<lambda>p. fst p \<noteq> k) al"
  by (induction al) auto

lemma foldl_update_filter:
  "foldl (\<lambda>d (k', v). AList.update k' v d) (filter (\<lambda>p. fst p \<noteq> k) acc) (filter (\<lambda>p. fst p \<noteq> k) xs) =
   filter (\<lambda>p. fst p \<noteq> k) (foldl (\<lambda>d (k', v). AList.update k' v d) acc xs)"
proof (induction xs arbitrary: acc)
  case Nil
  show ?case by simp
next
  case (Cons x xs)
  obtain k' v where x: "x = (k', v)" by (cases x)
  show ?case
  proof (cases "k' = k")
    case True
    with Cons.IH [of "AList.update k v acc"] show ?thesis by (simp add: x filter_update_same)
  next
    case False
    then have "AList.update k' v (filter (\<lambda>p. fst p \<noteq> k) acc) = filter (\<lambda>p. fst p \<noteq> k) (AList.update k' v acc)"
      by (simp add: update_filter)
    with False Cons.IH [of "AList.update k' v acc"] show ?thesis by (simp add: x)
  qed
qed

lemma py_dict_filter: "py_dict (filter (\<lambda>p. fst p \<noteq> k) xs) = filter (\<lambda>p. fst p \<noteq> k) (py_dict xs)"
  using foldl_update_filter [of k "[]" xs] by (simp add: py_dict_def)

lemma hook_loop_unknown_bank:
  assumes "split_key k = Inr (reg, idx)" and "map_of lookup reg = None"
  shows "hook_loop ret ((k, v) # kvs) = Inl (KeyError reg)"
  using assms by (simp add: make_register_def)

lemma hook_loop_bad_offset:
  assumes "split_key k = Inr (reg, idx)" and "map_of lookup reg = Some bank" and "py_int idx = Inl e"
  shows "hook_loop ret ((k, v) # kvs) = hook_loop ret kvs"
proof -
  from py_int_error [OF assms(3)] obtain m where "e = ValueError m" by blast
  with assms show ?thesis by (simp add: make_register_def)
qed

lemma make_register_error:
  "make_register reg idx = Inl e \<Longrightarrow> (\<exists>m. e = KeyError m) \<or> (\<exists>m. e = ValueError m)"
  by (auto simp: make_register_def split: option.splits sum.splits dest: py_int_error)

lemma split_key_error: "split_key k = Inl e \<Longrightarrow> \<exists>m. e = ValueError m"
  by (auto simp: split_key_def split: if_splits prod.splits)

lemma hook_loop_fails:
  assumes "split_key k = Inr (reg, idx)" and "map_of lookup reg = None"
  shows "k \<in> fst ` set kvs \<Longrightarrow>
         \<exists>m. hook_loop ret kvs = Inl (KeyError m) \<or> hook_loop ret kvs = Inl (ValueError m)"
proof (induction kvs arbitrary: ret)
  case Nil
  then show ?case by simp
next
  case (Cons x kvs)
  obtain k' v where x: "x = (k', v)" by (cases x)
  show ?case
  proof (cases "k' = k")
    case True
    with hook_loop_unknown_bank [OF assms] x show ?thesis by blast
  next
    case False
    with Cons.prems x have mem: "k \<in> fst ` set kvs" by auto
    show ?thesis
    proof (cases "split_key k'")
      case (Inl e)
      with split_key_error [OF Inl] x show ?thesis by auto
    next
      case (Inr p)
      obtain reg' idx' where p: "p = (reg', idx')" by (cases p)
      show ?thesis
      proof (cases "make_register reg' idx'")
        case (Inl e)
        from make_register_error [OF Inl] show ?thesis
        proof
          assume "\<exists>m. e = KeyError m"
          with Inl Inr p x show ?thesis by auto
        next
          assume "\<exists>m. e = ValueError m"
          with Inl Inr p x Cons.IH [OF mem, of ret] show ?thesis by auto
        qed
      next
        fix r assume "make_register reg' idx' = Inr r"
        with Inr p x Cons.IH [OF mem, of "AList.update r v ret"] show ?thesis by auto
      qed
    qed
  qed
qed

lemma hook_loop_skips:
  assumes "split_key k = Inr (reg, idx)" and "map_of lookup reg = Some bank" and "py_int idx = Inl e"
  shows "hook_loop ret (filter (\<lambda>p. fst p \<noteq> k) kvs) = hook_loop ret kvs"
proof (induction kvs arbitrary: ret)
  case Nil
  show ?case by simp
next
  case (Cons x kvs)
  obtain k' v where x: "x = (k', v)" by (cases x)
  show ?case
  proof (cases "k' = k")
    case True
    with Cons.IH [of ret] hook_loop_bad_offset [OF assms, of ret v kvs] x show ?thesis by simp
  next
    case False
    with x Cons.IH show ?thesis
      by (simp split: sum.splits prod.splits py_error.splits)
  qed
qed


text \<open>
  C6. Let the key \<open>k\<close> split into an abbreviation and an offset text. If the abbreviation is
  not one of the two known ones, the item raises \<^verbatim>\<open>KeyError\<close> when the loop reaches it, and an
  object with such a key makes the whole of \<open>from_json\<close> fail (with that \<^verbatim>\<open>KeyError\<close>, or with the
  exception of an item before it). If the abbreviation is known and \<^verbatim>\<open>int\<close> rejects the
  offset text, the loop goes on to the remaining items as if the item were not there, and
  \<open>from_json\<close> gives what it gives for the object without that key.
\<close>

theorem from_json_unknown_bank_or_bad_offset:
  assumes "split_key k = Inr (reg, idx)"
  shows "(map_of lookup reg = None \<longrightarrow>
            hook_loop ret ((k, v) # kvs) = Inl (KeyError reg) \<and>
            (k \<in> fst ` set data \<longrightarrow>
               (\<exists>m. from_json data = Inl (KeyError m) \<or> from_json data = Inl (ValueError m)))) \<and>
         (map_of lookup reg \<noteq> None \<and> (\<exists>e. py_int idx = Inl e) \<longrightarrow>
            hook_loop ret ((k, v) # kvs) = hook_loop ret kvs \<and>
            from_json data = from_json (filter (\<lambda>p. fst p \<noteq> k) data))"
proof (intro conjI impI)
  assume n: "map_of lookup reg = None"
  show "hook_loop ret ((k, v) # kvs) = Inl (KeyError reg)"
    by (rule hook_loop_unknown_bank [OF assms n])
  assume "k \<in> fst ` set data"
  then have "k \<in> fst ` set (py_dict data)" by (simp only: py_dict_keys)
  from hook_loop_fails [OF assms n this, of "[]"]
  show "\<exists>m. from_json data = Inl (KeyError m) \<or> from_json data = Inl (ValueError m)"
    by (auto simp: from_json_def register_object_hook_def)
next
  assume a: "map_of lookup reg \<noteq> None \<and> (\<exists>e. py_int idx = Inl e)"
  then obtain bank e where b: "map_of lookup reg = Some bank" and e: "py_int idx = Inl e" by auto
  show "hook_loop ret ((k, v) # kvs) = hook_loop ret kvs"
    by (rule hook_loop_bad_offset [OF assms b e])
  show "from_json data = from_json (filter (\<lambda>p. fst p \<noteq> k) data)"
    by (simp add: from_json_def register_object_hook_def py_dict_filter hook_loop_skips [OF assms b e])
qed

theorem from_json_unknown_bank_or_bad_offset_witness:
  "split_key ''XX(5)'' = Inr (''XX'', ''5'') \<and> map_of lookup ''XX'' = None \<and>
   from_json [(''IR(1)'', PyInt 7), (''XX(5)'', PyInt 1)] = Inl (KeyError ''XX'') \<and>
   split_key ''HR(abc)'' = Inr (''HR'', ''abc'') \<and> map_of lookup ''HR'' = Some HR \<and>
   py_int ''abc'' = Inl (ValueError ''invalid literal for int() with base 10: abc'') \<and>
   from_json [(''HR(abc)'', PyInt 1), (''IR(1)'', PyInt 7)] = from_json [(''IR(1)'', PyInt 7)] \<and>
   from_json [(''IR(1)'', PyInt 7)] = Inr [(IR 1, PyInt 7)]"
proof -
  have x: "split_key ''XX(5)'' = Inr (''XX'', ''5'')" by code_simp
  have h: "split_key ''HR(abc)'' = Inr (''HR'', ''abc'')" by code_simp
  have l: "map_of lookup ''XX'' = None" "map_of lookup ''HR'' = Some HR" by (simp_all add: lookup_def)
  have p: "py_int ''abc'' = Inl (ValueError ''invalid literal for int() with base 10: abc'')" by code_simp
  have f: "from_json [(''IR(1)'', PyInt 7), (''XX(5)'', PyInt 1)] = Inl (KeyError ''XX'')" by code_simp
  have g: "from_json [(''IR(1)'', PyInt 7)] = Inr [(IR 1, PyInt 7)]" by code_simp
  from from_json_unknown_bank_or_bad_offset [OF h, of "[]" "PyInt 1" "[]" "[(''HR(abc)'', PyInt 1), (''IR(1)'', PyInt 7)]"] l p
  have "from_json [(''HR(abc)'', PyInt 1), (''IR(1)'', PyInt 7)] = from_json [(''IR(1)'', PyInt 7)]"
    by simp
  with x h l p f g show ?thesis by simp
qed

section \<open>Properties of the register tables\<close>

lemma adjacent_from_zip:
  assumes z: "list_all (\<lambda>(a, b). Q a b) (zip t (tl t))" and i: "Suc i < length t"
  shows "Q (t ! i) (t ! Suc i)"
proof -
  from i have l: "i < length (zip t (tl t))" by simp
  then have "zip t (tl t) ! i = (t ! i, t ! Suc i)" using i by (simp add: nth_tl)
  moreover from z l have "(\<lambda>(a, b). Q a b) (zip t (tl t) ! i)" by (simp add: list_all_length)
  ultimately show ?thesis by simp
qed

lemma dword_pairs_by_index:
  fixes t :: RegisterBank
  assumes ne: "t \<noteq> []"
    and vals: "map reg_value t = map int [0..<length t]"
    and fwd: "list_all (\<lambda>(a, b). reg_type a = DWORD_HIGH \<longrightarrow>
                reg_type b = DWORD_LOW \<and> reg_scaling b = reg_scaling a) (zip t (tl t))"
    and bwd: "list_all (\<lambda>(a, b). reg_type b = DWORD_LOW \<longrightarrow>
                reg_type a = DWORD_HIGH \<and> reg_scaling a = reg_scaling b) (zip t (tl t))"
    and first: "reg_type (hd t) \<noteq> DWORD_LOW"
    and final: "reg_type (last t) \<noteq> DWORD_HIGH"
    and i: "i < length t"
  shows "reg_value (t ! i) = int i \<and>
     (reg_type (t ! i) = DWORD_HIGH \<longrightarrow>
        Suc i < length t \<and> reg_type (t ! Suc i) = DWORD_LOW \<and>
        reg_value (t ! Suc i) = reg_value (t ! i) + 1 \<and> reg_scaling (t ! Suc i) = reg_scaling (t ! i)) \<and>
     (reg_type (t ! i) = DWORD_LOW \<longrightarrow>
        0 < i \<and> reg_type (t ! (i - 1)) = DWORD_HIGH \<and>
        reg_value (t ! (i - 1)) = reg_value (t ! i) - 1 \<and> reg_scaling (t ! (i - 1)) = reg_scaling (t ! i))"
proof -
  have v: "reg_value (t ! j) = int j" if "j < length t" for j
  proof -
    from that have "reg_value (t ! j) = map reg_value t ! j" by simp
    also have "\<dots> = int j" unfolding vals using that by simp
    finally show ?thesis .
  qed
  have high: "Suc i < length t \<and> reg_type (t ! Suc i) = DWORD_LOW \<and>
        reg_value (t ! Suc i) = reg_value (t ! i) + 1 \<and> reg_scaling (t ! Suc i) = reg_scaling (t ! i)"
    if h: "reg_type (t ! i) = DWORD_HIGH"
  proof -
    have "i \<noteq> length t - 1" using h final ne by (auto simp: last_conv_nth)
    with i have s: "Suc i < length t" by simp
    from adjacent_from_zip [OF fwd s] h v [OF s] v [OF i] s show ?thesis by simp
  qed
  have low: "0 < i \<and> reg_type (t ! (i - 1)) = DWORD_HIGH \<and>
        reg_value (t ! (i - 1)) = reg_value (t ! i) - 1 \<and> reg_scaling (t ! (i - 1)) = reg_scaling (t ! i)"
    if h: "reg_type (t ! i) = DWORD_LOW"
  proof -
    have p: "0 < i" using h first ne by (cases i) (auto simp: hd_conv_nth)
    then obtain j where j: "i = Suc j" by (cases i) auto
    with i have s: "Suc j < length t" "j < length t" by simp_all
    from adjacent_from_zip [OF bwd s(1)] h v [OF s(1)] v [OF s(2)] j show ?thesis by simp
  qed
  from v [OF i] high low show ?thesis by blast
qed

lemma holding_checks:
  "HoldingRegister \<noteq> []"
  "map reg_value HoldingRegister = map int [0..<length HoldingRegister]"
  "list_all (\<lambda>(a, b). reg_type a = DWORD_HIGH \<longrightarrow>
      reg_type b = DWORD_LOW \<and> reg_scaling b = reg_scaling a) (zip HoldingRegister (tl HoldingRegister))"
  "list_all (\<lambda>(a, b). reg_type b = DWORD_LOW \<longrightarrow>
      reg_type a = DWORD_HIGH \<and> reg_scaling a = reg_scaling b) (zip HoldingRegister (tl HoldingRegister))"
  "reg_type (hd HoldingRegister) \<noteq> DWORD_LOW"
  "reg_type (last HoldingRegister) \<noteq> DWORD_HIGH"
  by code_simp+

lemma input_checks:
  "InputRegister \<noteq> []"
  "map reg_value InputRegister = map int [0..<length InputRegister]"
  "list_all (\<lambda>(a, b). reg_type a = DWORD_HIGH \<longrightarrow>
      reg_type b = DWORD_LOW \<and> reg_scaling b = reg_scaling a) (zip InputRegister (tl InputRegister))"
  "list_all (\<lambda>(a, b). reg_type b = DWORD_LOW \<longrightarrow>
      reg_type a = DWORD_HIGH \<and> reg_scaling a = reg_scaling b) (zip InputRegister (tl InputRegister))"
  "reg_type (hd InputRegister) \<noteq> DWORD_LOW"
  "reg_type (last InputRegister) \<noteq> DWORD_HIGH"
  by code_simp+


text \<open>
  C10. In both tables the member at position \<open>i\<close> has the offset \<open>i\<close>. A member of type
  \<open>DWORD_HIGH\<close> is not the last one, and the next member has type \<open>DWORD_LOW\<close>, the offset
  one higher and the same scaling. A member of type \<open>DWORD_LOW\<close> is not the first one, and
  the member before it has type \<open>DWORD_HIGH\<close>, the offset one lower and the same scaling.
\<close>

theorem dword_halves_paired:
  assumes "t = HoldingRegister \<or> t = InputRegister" and "i < length t"
  shows "reg_value (t ! i) = int i \<and>
     (reg_type (t ! i) = DWORD_HIGH \<longrightarrow>
        Suc i < length t \<and> reg_type (t ! Suc i) = DWORD_LOW \<and>
        reg_value (t ! Suc i) = reg_value (t ! i) + 1 \<and> reg_scaling (t ! Suc i) = reg_scaling (t ! i)) \<and>
     (reg_type (t ! i) = DWORD_LOW \<longrightarrow>
        0 < i \<and> reg_type (t ! (i - 1)) = DWORD_HIGH \<and>
        reg_value (t ! (i - 1)) = reg_value (t ! i) - 1 \<and> reg_scaling (t ! (i - 1)) = reg_scaling (t ! i))"
  using assms(1)
proof
  assume t: "t = HoldingRegister"
  show ?thesis using dword_pairs_by_index [OF holding_checks] assms(2) unfolding t by blast
next
  assume t: "t = InputRegister"
  show ?thesis using dword_pairs_by_index [OF input_checks] assms(2) unfolding t by blast
qed

lemma lens: "length HoldingRegister = 121" "length InputRegister = 182"
  by code_simp+

theorem dword_halves_paired_witness:
  "(6::nat) < length InputRegister \<and> reg_type (InputRegister ! 6) = DWORD_HIGH \<and>
   reg_type (InputRegister ! 7) = DWORD_LOW \<and> reg_value (InputRegister ! 6) = 6 \<and>
   reg_value (InputRegister ! 7) = 7 \<and> reg_scaling (InputRegister ! 7) = reg_scaling (InputRegister ! 6)"
proof -
  have l: "(6::nat) < length InputRegister" by (simp add: lens)
  have h: "reg_type (InputRegister ! 6) = DWORD_HIGH" by code_simp
  from dword_halves_paired [OF disjI2 [OF refl] l] h l show ?thesis by simp
qed

end
